theory Spec2Isabelle
  imports Complex_Main
begin

section \<open>Walk-forward grid search for ARIMA orders\<close>

text \<open>
  The notebook defines two functions. \<^verbatim>\<open>evaluate_arima_models(X, arima_order)\<close> splits a
  series at 66 percent, refits the model on a growing history for every position of the
  held-out suffix and returns the root-mean-squared error of the one-step forecasts.
  \<^verbatim>\<open>evaluate_models(dataset, p_values, d_values, q_values)\<close> runs it for every triple of
  three nested loops, skips the triples that raise, tracks the lowest error and prints it.

  Observations and forecasts are finite numbers and are modelled as reals; the rounding of
  binary floating point is not modelled, except for the split index. Indexing is by position,
  as for a list, an array or the date-indexed series the notebook passes. The special float values the code itself produces
  (\<^verbatim>\<open>float('inf')\<close> as the initial best score, \<^verbatim>\<open>nan\<close> as the mean of an empty array)
  are values of the type \<open>pyfloat\<close>.
\<close>

subsection \<open>Data\<close>

text \<open>An ARIMA order \<^verbatim>\<open>(p, d, q)\<close>: a tuple of Python integers.\<close>

type_synonym order = "int \<times> int \<times> int"

text \<open>Whatever the model raises while fitting or forecasting.\<close>

datatype error = ValueError | LinAlgError

text \<open>
  The modelling primitive \<^verbatim>\<open>ARIMA(history, arima_order).fit().forecast()[0][0]\<close>: from the
  history and the order, either an exception or the one-step forecast. It is a library call
  and a parameter of every function here; it reads the history and changes nothing.
\<close>

type_synonym model = "real list \<Rightarrow> order \<Rightarrow> error + real"

datatype pyfloat = Num real | PosInf | NaN

text \<open>Python's \<^verbatim>\<open><\<close> on floats: every comparison with \<^verbatim>\<open>nan\<close> is false.\<close>

fun pyfloat_less :: "pyfloat \<Rightarrow> pyfloat \<Rightarrow> bool" where
  "pyfloat_less (Num a) (Num b) = (a < b)"
| "pyfloat_less (Num a) PosInf = True"
| "pyfloat_less _ _ = False"

subsection \<open>The error measure\<close>

text \<open>
  Modelled from the spec: \<^verbatim>\<open>rmse\<close> is imported from statsmodels and is not part of the
  repository. It is the root of the mean of the element-wise squared differences of two
  sequences of the same length; numpy's mean of an empty array is \<^verbatim>\<open>nan\<close>.
\<close>

definition rmse :: "real list \<Rightarrow> real list \<Rightarrow> pyfloat" where
  "rmse x1 x2 =
     (if x1 = [] then NaN
      else Num (sqrt (sum_list (map2 (\<lambda>a b. (a - b)\<^sup>2) x1 x2) / real (length x1))))"

subsection \<open>Evaluating one order\<close>

text \<open>\<^verbatim>\<open>train_size = int(len(X)*0.66)\<close>.\<close>

definition train_size :: "real list \<Rightarrow> nat" where
  "train_size X = nat \<lfloor>real (length X) * 0.66\<rfloor>"

text \<open>
  The source computes this product in binary64. The literal \<^verbatim>\<open>0.66\<close> denotes the double
  \<open>5944751508129055 / 2^53\<close>; the product of two doubles is the exact product rounded to
  the nearest double, ties to the even significand; the doubles between \<open>2^e\<close> and
  \<open>2^(e+1)\<close> are the multiples of \<open>2^(e-52)\<close>; \<^verbatim>\<open>int\<close> truncates. \<open>train_size_double\<close>
  is this computation for a length below \<open>2^53\<close> (a product by 0 or 1 is exact). It is
  shown below to agree with \<open>train_size\<close> for every length below \<open>2^40\<close>.
\<close>

definition double_066 :: real where
  "double_066 = 5944751508129055 / 2 ^ 53"

text \<open>Rounding to the nearest integer, ties to even.\<close>

definition round_half_even :: "real \<Rightarrow> int" where
  "round_half_even y =
     (let f = \<lfloor>y\<rfloor>
      in if y - of_int f < 1 / 2 then f
         else if 1 / 2 < y - of_int f then f + 1
         else if even f then f else f + 1)"

text \<open>The largest \<open>e \<le> k\<close> with \<open>2^e \<le> x\<close>, for \<open>1 \<le> x\<close>.\<close>

fun exponent :: "nat \<Rightarrow> real \<Rightarrow> nat" where
  "exponent 0 x = 0"
| "exponent (Suc k) x = (if 2 ^ Suc k \<le> x then Suc k else exponent k x)"

definition round_double :: "real \<Rightarrow> real" where
  "round_double x =
     (let e = exponent 52 x
      in of_int (round_half_even (x * 2 ^ (52 - e))) / 2 ^ (52 - e))"

definition train_size_double :: "nat \<Rightarrow> nat" where
  "train_size_double n =
     (if n \<le> 1 then nat \<lfloor>real n * double_066\<rfloor>
      else nat \<lfloor>round_double (real n * double_066)\<rfloor>)"

text \<open>The two lists the loop appends to.\<close>

record wf_state =
  history :: "real list"
  predictions :: "real list"

text \<open>
  The body of \<^verbatim>\<open>for t in range(len(test))\<close>: fit on the history, forecast, append the
  forecast to \<^verbatim>\<open>predictions\<close> and the observation \<^verbatim>\<open>test[t]\<close> to \<^verbatim>\<open>history\<close>. An exception of
  the model leaves the function.
\<close>

definition wf_step :: "model \<Rightarrow> order \<Rightarrow> real list \<Rightarrow> nat \<Rightarrow> wf_state \<Rightarrow> error + wf_state" where
  "wf_step ARIMA arima_order test t s =
     (case ARIMA (history s) arima_order of
        Inl e \<Rightarrow> Inl e
      | Inr yhat \<Rightarrow>
          Inr \<lparr>history = history s @ [test ! t], predictions = predictions s @ [yhat]\<rparr>)"

fun wf_loop :: "model \<Rightarrow> order \<Rightarrow> real list \<Rightarrow> nat list \<Rightarrow> wf_state \<Rightarrow> error + wf_state" where
  "wf_loop ARIMA arima_order test [] s = Inr s"
| "wf_loop ARIMA arima_order test (t # ts) s =
     (case wf_step ARIMA arima_order test t s of
        Inl e \<Rightarrow> Inl e
      | Inr s' \<Rightarrow> wf_loop ARIMA arima_order test ts s')"

text \<open>
  The loop after its first \<open>n\<close> iterations, started as the source starts it:
  \<^verbatim>\<open>history = [x for x in train]\<close>, \<^verbatim>\<open>predictions = list()\<close>.
\<close>

definition walk_forward :: "model \<Rightarrow> real list \<Rightarrow> order \<Rightarrow> nat \<Rightarrow> error + wf_state" where
  "walk_forward ARIMA X arima_order n =
     (let train = take (train_size X) X;
          test = drop (train_size X) X
      in wf_loop ARIMA arima_order test [0..<n] \<lparr>history = train, predictions = []\<rparr>)"

definition evaluate_arima_models :: "model \<Rightarrow> real list \<Rightarrow> order \<Rightarrow> error + pyfloat" where
  "evaluate_arima_models ARIMA X arima_order =
     (let test = drop (train_size X) X
      in case walk_forward ARIMA X arima_order (length test) of
           Inl e \<Rightarrow> Inl e
         | Inr s \<Rightarrow> Inr (rmse test (predictions s)))"

subsection \<open>The grid search\<close>

text \<open>
  What \<^verbatim>\<open>print\<close> writes: the line of an improving order,
  \<^verbatim>\<open>"ARIMA order: %s and RMSE = %.3f" % (order, rmse)\<close>, and the closing line
  \<^verbatim>\<open>"Best ARIMA order %s and RMSE = %.3f" % (best_cfg, best_score)\<close>. A line is kept
  as its format and its two arguments.
\<close>

datatype line = Progress order pyfloat | Best "order option" pyfloat

text \<open>The local variables of \<^verbatim>\<open>evaluate_models\<close> and the text printed so far.\<close>

record gs_state =
  best_score :: pyfloat
  best_cfg :: "order option"
  out :: "line list"

text \<open>\<^verbatim>\<open>best_score, best_cfg = float('inf'), None\<close>.\<close>

definition initial :: gs_state where
  "initial = \<lparr>best_score = PosInf, best_cfg = None, out = []\<rparr>"

text \<open>
  The body of the innermost loop: the \<^verbatim>\<open>try\<close> around the evaluation of one order. The bare
  \<^verbatim>\<open>except: continue\<close> drops every exception and leaves the variables as they were.
\<close>

definition try_order :: "model \<Rightarrow> real list \<Rightarrow> order \<Rightarrow> gs_state \<Rightarrow> gs_state" where
  "try_order ARIMA dataset ord s =
     (case evaluate_arima_models ARIMA dataset ord of
        Inl e \<Rightarrow> s
      | Inr score \<Rightarrow>
          if pyfloat_less score (best_score s)
          then \<lparr>best_score = score, best_cfg = Some ord, out = out s @ [Progress ord score]\<rparr>
          else s)"

text \<open>\<^verbatim>\<open>for p in p_values: for d in d_values: for q in q_values: ...\<close>\<close>

definition grid_loops ::
  "model \<Rightarrow> real list \<Rightarrow> int list \<Rightarrow> int list \<Rightarrow> int list \<Rightarrow> gs_state \<Rightarrow> gs_state" where
  "grid_loops ARIMA dataset p_values d_values q_values =
     fold (\<lambda>p. fold (\<lambda>d. fold (\<lambda>q. try_order ARIMA dataset (p, d, q)) q_values) d_values)
       p_values"

text \<open>
  The variables when the loops are over. \<^verbatim>\<open>dataset.astype('float32')\<close> builds a new array
  with every element converted; the conversion of one element is the parameter
  \<open>as_float\<close>.
\<close>

definition best_result ::
  "model \<Rightarrow> (real \<Rightarrow> real) \<Rightarrow> real list \<Rightarrow> int list \<Rightarrow> int list \<Rightarrow> int list \<Rightarrow> gs_state" where
  "best_result ARIMA as_float dataset p_values d_values q_values =
     grid_loops ARIMA (map as_float dataset) p_values d_values q_values initial"

text \<open>
  What a caller of \<^verbatim>\<open>evaluate_models\<close> observes: the value returned, where \<open>None\<close> is
  Python's \<^verbatim>\<open>None\<close> of a function that ends without \<^verbatim>\<open>return\<close>, and the lines printed.
\<close>

record outcome =
  returned :: "(order option \<times> pyfloat) option"
  printed :: "line list"

definition evaluate_models ::
  "model \<Rightarrow> (real \<Rightarrow> real) \<Rightarrow> real list \<Rightarrow> int list \<Rightarrow> int list \<Rightarrow> int list \<Rightarrow> outcome" where
  "evaluate_models ARIMA as_float dataset p_values d_values q_values =
     (let s = best_result ARIMA as_float dataset p_values d_values q_values
      in \<lparr>returned = None, printed = out s @ [Best (best_cfg s) (best_score s)]\<rparr>)"

text \<open>The format string of a printed line.\<close>

fun format_of :: "line \<Rightarrow> string" where
  "format_of (Progress ord score) = ''ARIMA order: %s and RMSE = %.3f''"
| "format_of (Best cfg score) = ''Best ARIMA order %s and RMSE = %.3f''"

subsection \<open>The order of the enumeration\<close>

text \<open>
  The triples of the Cartesian product with \<open>p\<close> outermost and \<open>q\<close> innermost, and the
  variables after the first \<open>k\<close> triples of a list of candidates.
\<close>

definition candidates :: "int list \<Rightarrow> int list \<Rightarrow> int list \<Rightarrow> order list" where
  "candidates p_values d_values q_values =
     concat (map (\<lambda>p. concat (map (\<lambda>d. map (\<lambda>q. (p, d, q)) q_values) d_values)) p_values)"

definition state_after :: "model \<Rightarrow> real list \<Rightarrow> order list \<Rightarrow> nat \<Rightarrow> gs_state" where
  "state_after ARIMA dataset cs k = fold (try_order ARIMA dataset) (take k cs) initial"

subsection \<open>The same functions on a store\<close>

text \<open>
  Python lists and arrays are objects, and a variable holds a reference. The store maps a
  reference to the elements of its object; every reference below \<open>fresh\<close> is in use.
\<close>

type_synonym ref = nat

record store =
  objs :: "ref \<Rightarrow> real list"
  fresh :: ref

definition alloc :: "real list \<Rightarrow> store \<Rightarrow> ref \<times> store" where
  "alloc xs h = (fresh h, h\<lparr>objs := (objs h)(fresh h := xs), fresh := Suc (fresh h)\<rparr>)"

definition list_append :: "ref \<Rightarrow> real \<Rightarrow> store \<Rightarrow> store" where
  "list_append r x h = h\<lparr>objs := (objs h)(r := objs h r @ [x])\<rparr>"

text \<open>
  The slices \<^verbatim>\<open>X[0:train_size]\<close> and \<^verbatim>\<open>X[train_size:]\<close> of an array or a pandas series are
  views: they read the elements of \<open>X\<close>. So \<^verbatim>\<open>test[t]\<close> is element \<open>train_size + t\<close> of
  \<open>X\<close> as it is when read. \<^verbatim>\<open>[x for x in train]\<close> and \<^verbatim>\<open>list()\<close> are new lists.
\<close>

definition wf_step_st ::
  "model \<Rightarrow> order \<Rightarrow> ref \<Rightarrow> nat \<Rightarrow> ref \<Rightarrow> ref \<Rightarrow> nat \<Rightarrow> store \<Rightarrow> (error + unit) \<times> store" where
  "wf_step_st ARIMA arima_order X tsize hist preds t h =
     (case ARIMA (objs h hist) arima_order of
        Inl e \<Rightarrow> (Inl e, h)
      | Inr yhat \<Rightarrow>
          (let h1 = list_append preds yhat h;
               h2 = list_append hist (objs h1 X ! (tsize + t)) h1
           in (Inr (), h2)))"

fun wf_loop_st ::
  "model \<Rightarrow> order \<Rightarrow> ref \<Rightarrow> nat \<Rightarrow> ref \<Rightarrow> ref \<Rightarrow> nat list \<Rightarrow> store \<Rightarrow> (error + unit) \<times> store" where
  "wf_loop_st ARIMA arima_order X tsize hist preds [] h = (Inr (), h)"
| "wf_loop_st ARIMA arima_order X tsize hist preds (t # ts) h =
     (case wf_step_st ARIMA arima_order X tsize hist preds t h of
        (Inl e, h') \<Rightarrow> (Inl e, h')
      | (Inr u, h') \<Rightarrow> wf_loop_st ARIMA arima_order X tsize hist preds ts h')"

definition evaluate_arima_models_st ::
  "model \<Rightarrow> ref \<Rightarrow> order \<Rightarrow> store \<Rightarrow> (error + pyfloat) \<times> store" where
  "evaluate_arima_models_st ARIMA X arima_order h =
     (let tsize = train_size (objs h X);
          (hist, h1) = alloc (take tsize (objs h X)) h;
          (preds, h2) = alloc [] h1;
          (r, h3) = wf_loop_st ARIMA arima_order X tsize hist preds
                      [0..<length (objs h2 X) - tsize] h2
      in case r of
           Inl e \<Rightarrow> (Inl e, h3)
         | Inr u \<Rightarrow> (Inr (rmse (drop tsize (objs h3 X)) (objs h3 preds)), h3))"

definition try_order_st ::
  "model \<Rightarrow> ref \<Rightarrow> order \<Rightarrow> gs_state \<times> store \<Rightarrow> gs_state \<times> store" where
  "try_order_st ARIMA dataset ord = (\<lambda>(s, h).
     (case evaluate_arima_models_st ARIMA dataset ord h of
        (Inl e, h') \<Rightarrow> (s, h')
      | (Inr score, h') \<Rightarrow>
          (if pyfloat_less score (best_score s)
           then \<lparr>best_score = score, best_cfg = Some ord, out = out s @ [Progress ord score]\<rparr>
           else s, h')))"

definition evaluate_models_st ::
  "model \<Rightarrow> (real \<Rightarrow> real) \<Rightarrow> ref \<Rightarrow> int list \<Rightarrow> int list \<Rightarrow> int list \<Rightarrow> store
     \<Rightarrow> outcome \<times> store" where
  "evaluate_models_st ARIMA as_float dataset p_values d_values q_values h =
     (let (dataset', h1) = alloc (map as_float (objs h dataset)) h;
          (s, h2) =
            fold (\<lambda>p. fold (\<lambda>d. fold (\<lambda>q. try_order_st ARIMA dataset' (p, d, q)) q_values)
              d_values) p_values (initial, h1)
      in (\<lparr>returned = None, printed = out s @ [Best (best_cfg s) (best_score s)]\<rparr>, h2))"

subsection \<open>Models and stores used for the examples\<close>

text \<open>
  A model that forecasts the last observation plus \<open>q\<close>, and raises for a negative \<open>p\<close>
  or an empty history; and one that always raises.
\<close>

definition naive :: model where
  "naive hist ord =
     (case ord of (p, d, q) \<Rightarrow>
        if p < 0 \<or> hist = [] then Inl ValueError else Inr (last hist + real_of_int q))"

definition failing :: model where
  "failing hist ord = Inl LinAlgError"

definition store0 :: store where
  "store0 = \<lparr>objs = (\<lambda>r. if r = 0 then [1, 2, 3, 4] else []), fresh = 1\<rparr>"

section \<open>Properties of the walk-forward loop\<close>

lemma train_size_div: "train_size X = (66 * length X) div 100"
proof -
  have "real (length X) * 0.66 = real (66 * length X) / real 100"
    by simp
  then have "\<lfloor>real (length X) * 0.66\<rfloor> = \<lfloor>real (66 * length X) / real 100\<rfloor>"
    by presburger
  also have "\<dots> = int ((66 * length X) div 100)"
    by (rule floor_divide_of_nat_eq)
  finally show ?thesis
    by (simp add: train_size_def)
qed

lemma train_size_less: "0 < length X \<Longrightarrow> train_size X < length X"
  unfolding train_size_div by arith

lemma train_size_le: "train_size X \<le> length X"
  unfolding train_size_div by arith

lemma wf_loop_snoc:
  "wf_loop A ord test (ts @ [t]) s =
     (case wf_loop A ord test ts s of Inl e \<Rightarrow> Inl e | Inr s' \<Rightarrow> wf_step A ord test t s')"
  by (induction ts arbitrary: s) (auto split: sum.splits)

lemma wf_loop_invariant:
  "n \<le> length test \<Longrightarrow> wf_loop A ord test [0..<n] s = Inr s' \<Longrightarrow>
     history s' = history s @ take n test \<and>
     length (predictions s') = length (predictions s) + n"
proof (induction n arbitrary: s')
  case 0
  then show ?case by simp
next
  case (Suc n)
  from Suc.prems(2) obtain m where m: "wf_loop A ord test [0..<n] s = Inr m"
    and step: "wf_step A ord test n m = Inr s'"
    by (auto simp: wf_loop_snoc split: sum.splits)
  from Suc.prems(1) have n: "n < length test" by simp
  from Suc.IH [OF _ m] n
  have ih: "history m = history s @ take n test"
    "length (predictions m) = length (predictions s) + n"
    by simp_all
  from step obtain yhat where
    s': "s' = \<lparr>history = history m @ [test ! n], predictions = predictions m @ [yhat]\<rparr>"
    by (auto simp: wf_step_def split: sum.splits)
  show ?case
    using ih n by (simp add: s' take_Suc_conv_app_nth)
qed

lemma wf_loop_succeeds:
  "n \<le> length test \<Longrightarrow> \<forall>k<n. \<exists>y. A (history s @ take k test) ord = Inr y \<Longrightarrow>
     \<exists>s'. wf_loop A ord test [0..<n] s = Inr s'"
proof (induction n)
  case 0
  then show ?case by simp
next
  case (Suc n)
  then obtain m where m: "wf_loop A ord test [0..<n] s = Inr m"
    by auto
  from Suc.prems(1) have "n \<le> length test" by simp
  from wf_loop_invariant [OF this m]
  have "history m = history s @ take n test" by simp
  moreover from Suc.prems(2) obtain y where "A (history s @ take n test) ord = Inr y"
    by blast
  ultimately show ?case
    by (simp add: wf_loop_snoc m wf_step_def)
qed

lemma take_train_test:
  "take (train_size X) X @ take k (drop (train_size X) X) = take (train_size X + k) X"
  by (simp add: take_add)

lemma walk_forward_invariant:
  assumes "n \<le> length X - train_size X" and "walk_forward A X ord n = Inr s"
  shows "history s = take (train_size X + n) X" and "length (predictions s) = n"
  using wf_loop_invariant [of n "drop (train_size X) X" A ord
      "\<lparr>history = take (train_size X) X, predictions = []\<rparr>" s] assms
  by (simp_all add: walk_forward_def take_train_test)

lemma walk_forward_succeeds:
  assumes "n \<le> length X - train_size X"
    and "\<forall>k<n. \<exists>y. A (take (train_size X + k) X) ord = Inr y"
  shows "\<exists>s. walk_forward A X ord n = Inr s"
  using wf_loop_succeeds [of n "drop (train_size X) X" A
      "\<lparr>history = take (train_size X) X, predictions = []\<rparr>" ord] assms
  by (simp add: walk_forward_def take_train_test)

lemma rmse_nonneg: "x1 \<noteq> [] \<Longrightarrow> \<exists>r. rmse x1 x2 = Num r \<and> 0 \<le> r"
proof -
  assume "x1 \<noteq> []"
  have "0 \<le> sum_list (map2 (\<lambda>a b. (a - b)\<^sup>2) x1 x2)"
    by (rule sum_list_nonneg) auto
  with \<open>x1 \<noteq> []\<close> show ?thesis
    by (simp add: rmse_def)
qed

lemma train_size_example: "train_size [1, 2, 3, 4] = 2"
  by (simp add: train_size_div)

lemma upt_2: "[0..<2] = [0, 1]"
  by (simp add: upt_rec)

lemma test_nonempty: "0 < length X \<Longrightarrow> drop (train_size X) X \<noteq> []"
  using train_size_less [of X] by simp

text \<open>The split index computed in binary64 is the exact one.\<close>

lemma round_half_even_upper: "real_of_int (round_half_even y) \<le> y + 1 / 2"
  unfolding round_half_even_def Let_def by (auto; linarith)

lemma round_half_even_lower: "of_int k \<le> y \<Longrightarrow> k \<le> round_half_even y"
  unfolding round_half_even_def Let_def by (auto simp: le_floor_iff; linarith)

lemma exponent_le: "1 \<le> x \<Longrightarrow> 2 ^ exponent k x \<le> x"
  by (induction k) simp_all

lemma double_066_delta: "double_066 = 66 / 100 + 7 / (25 * 2 ^ 53)"
  by (simp add: double_066_def)

lemma round_double_floor:
  assumes n: "2 \<le> n" "n < 2 ^ 40"
  shows "\<lfloor>round_double (real n * double_066)\<rfloor> = int ((66 * n) div 100)"
proof -
  let ?x = "real n * double_066"
  let ?m = "(66 * n) div 100"
  let ?e = "exponent 52 ?x"
  let ?s = "(2::real) ^ (52 - ?e)"
  let ?r = "round_half_even (?x * ?s)"
  have exact: "?x = real (66 * n) / 100 + real n * (7 / (25 * 2 ^ 53))"
    by (simp add: double_066_delta algebra_simps)
  have "66 * n = ?m * 100 + (66 * n) mod 100"
    by (rule div_mult_mod_eq [symmetric])
  moreover have "(66 * n) mod 100 < 100"
    by (rule mod_less_divisor) simp
  ultimately have "?m * 100 \<le> 66 * n" "66 * n \<le> ?m * 100 + 99"
    by linarith+
  then have "real (?m * 100) \<le> real (66 * n)" "real (66 * n) \<le> real (?m * 100 + 99)"
    by (simp_all only: of_nat_le_iff)
  then have m: "real ?m \<le> real (66 * n) / 100" "real (66 * n) / 100 \<le> real ?m + 99 / 100"
    by simp_all
  from n(2) have "real n < 2 ^ 40"
    by (metis of_nat_less_iff of_nat_numeral of_nat_power)
  then have small: "real n * (7 / (25 * 2 ^ 53)) < 7 / (25 * 2 ^ 13)"
    by simp
  have pos: "0 \<le> real n * (7 / (25 * 2 ^ 53))"
    by simp
  from n(1) have "2 \<le> real n"
    by simp
  then have x1: "1 \<le> ?x"
    by (simp add: double_066_def)
  have "?x \<le> real n"
    by (simp add: double_066_def mult_left_le)
  with \<open>real n < 2 ^ 40\<close> have "?x < 2 ^ 40"
    by simp
  with exponent_le [OF x1, of 52] have "(2::real) ^ ?e < 2 ^ 40"
    by simp
  then have e: "?e < 40"
    by (rule power_less_imp_less_exp [rotated]) simp
  then have "52 - ?e = 13 + (39 - ?e)"
    by simp
  then have "?s = 2 ^ 13 * 2 ^ (39 - ?e)"
    by (simp only: power_add)
  moreover have "(1::real) \<le> 2 ^ (39 - ?e)"
    by simp
  ultimately have s: "2 ^ 13 \<le> ?s"
    by simp
  have spos: "0 < ?s"
    by simp
  have rd: "round_double ?x = of_int ?r / ?s"
    by (simp add: round_double_def Let_def)
  from m(1) exact pos have "real ?m \<le> ?x"
    by linarith
  then have "real ?m * ?s \<le> ?x * ?s"
    by (rule mult_right_mono) simp
  moreover have "of_int (int ?m * 2 ^ (52 - ?e)) = real ?m * ?s"
    by simp
  ultimately have "of_int (int ?m * 2 ^ (52 - ?e)) \<le> ?x * ?s"
    by (simp only:)
  then have "int ?m * 2 ^ (52 - ?e) \<le> ?r"
    by (rule round_half_even_lower)
  then have "real_of_int (int ?m * 2 ^ (52 - ?e)) \<le> real_of_int ?r"
    by (simp only: of_int_le_iff)
  then have "real ?m * ?s \<le> real_of_int ?r"
    by simp
  with spos have lower: "real ?m \<le> round_double ?x"
    unfolding rd by (simp add: pos_le_divide_eq)
  have "real_of_int ?r \<le> ?x * ?s + 1 / 2"
    by (rule round_half_even_upper)
  with spos have "round_double ?x \<le> ?x + 1 / (2 * ?s)"
    unfolding rd by (simp add: pos_divide_le_eq algebra_simps)
  moreover from s spos have "1 / (2 * ?s) \<le> 1 / 2 ^ 14"
    by (simp add: field_simps)
  ultimately have near: "round_double ?x \<le> ?x + 1 / 2 ^ 14"
    by linarith
  have "(7::real) / (25 * 2 ^ 13) + 1 / 2 ^ 14 < 1 / 100"
    by simp
  with near exact m(2) small have upper: "round_double ?x < real ?m + 1"
    by linarith
  from lower upper show ?thesis
    by (intro floor_unique) simp_all
qed

lemma train_size_double_exact:
  assumes "length X < 2 ^ 40"
  shows "train_size_double (length X) = train_size X"
proof (cases "length X \<le> 1")
  case True
  then have "length X = 0 \<or> length X = 1"
    by linarith
  then show ?thesis
    by (auto simp: train_size_double_def train_size_div double_066_def)
next
  case False
  with assms round_double_floor [of "length X"] show ?thesis
    by (simp add: train_size_double_def train_size_div)
qed

lemma train_size_double_example: "train_size_double 10 = 6"
  by code_simp

lemma train_size_double_example2: "train_size_double 100 = 66"
  by code_simp

section \<open>The single-order evaluation\<close>

text \<open>
  Claim C1. For a series of at least four observations and an order for which the model
  succeeds on the history of every step, the loop ends with one prediction for each element
  of the test suffix, that is \<open>length X - \<lfloor>0.66 * length X\<rfloor>\<close> predictions, the series being
  split at index \<open>\<lfloor>0.66 * length X\<rfloor>\<close>; and \<^verbatim>\<open>evaluate_arima_models\<close> returns the error of
  these predictions against the suffix, a number that is not negative.
\<close>

theorem evaluate_returns_error_of_all_predictions:
  assumes "4 \<le> length X"
    and "\<forall>t < length X - train_size X. \<exists>yhat. ARIMA (take (train_size X + t) X) ord = Inr yhat"
  shows "\<exists>s r. walk_forward ARIMA X ord (length X - train_size X) = Inr s
           \<and> length (predictions s) = length X - nat \<lfloor>0.66 * real (length X)\<rfloor>
           \<and> length (predictions s) = length (drop (nat \<lfloor>0.66 * real (length X)\<rfloor>) X)
           \<and> evaluate_arima_models ARIMA X ord
               = Inr (rmse (drop (nat \<lfloor>0.66 * real (length X)\<rfloor>) X) (predictions s))
           \<and> evaluate_arima_models ARIMA X ord = Inr (Num r) \<and> 0 \<le> r"
proof -
  have split: "nat \<lfloor>0.66 * real (length X)\<rfloor> = train_size X"
    by (simp add: train_size_def mult.commute)
  from walk_forward_succeeds [of "length X - train_size X" X ARIMA ord] assms(2)
  obtain s where s: "walk_forward ARIMA X ord (length X - train_size X) = Inr s"
    by blast
  from walk_forward_invariant(2) [OF order_refl s]
  have len: "length (predictions s) = length X - train_size X" .
  have ev: "evaluate_arima_models ARIMA X ord = Inr (rmse (drop (train_size X) X) (predictions s))"
    by (simp add: evaluate_arima_models_def s)
  from assms(1) have "0 < length X"
    by auto
  then have "drop (train_size X) X \<noteq> []"
    by (rule test_nonempty)
  from rmse_nonneg [OF this, of "predictions s"]
  obtain r where "rmse (drop (train_size X) X) (predictions s) = Num r" "0 \<le> r"
    by blast
  with s len ev show ?thesis
    unfolding split by auto
qed

theorem evaluate_returns_error_of_all_predictions_witness:
  "(4::nat) \<le> length [1, 2, 3, 4 :: real]
   \<and> naive [1, 2] (0, 0, 0) = Inr 2 \<and> naive [1, 2, 3] (0, 0, 0) = Inr 3
   \<and> evaluate_arima_models naive [1, 2, 3, 4] (0, 0, 0) = Inr (Num 1)
   \<and> (\<exists>r. evaluate_arima_models naive [1, 2, 3, 4] (0, 0, 0) = Inr (Num r) \<and> 0 \<le> r)"
proof -
  have h1: "4 \<le> length [1, 2, 3, 4 :: real]"
    by simp
  have h2: "\<forall>t < length [1, 2, 3, 4 :: real] - train_size [1, 2, 3, 4].
      \<exists>yhat. naive (take (train_size [1, 2, 3, 4] + t) [1, 2, 3, 4]) (0, 0, 0) = Inr yhat"
    by (simp add: train_size_example naive_def)
  have ev: "evaluate_arima_models naive [1, 2, 3, 4] (0, 0, 0) = Inr (Num 1)"
    by (simp add: evaluate_arima_models_def walk_forward_def train_size_example upt_2
        wf_step_def naive_def rmse_def)
  from evaluate_returns_error_of_all_predictions [of "[1, 2, 3, 4]" naive "(0, 0, 0)"] h1 h2
  have "\<exists>r. evaluate_arima_models naive [1, 2, 3, 4] (0, 0, 0) = Inr (Num r) \<and> 0 \<le> r"
    by blast
  moreover have "naive [1, 2] (0, 0, 0) = Inr 2" "naive [1, 2, 3] (0, 0, 0) = Inr 3"
    by (simp_all add: naive_def)
  ultimately show ?thesis
    using h1 ev by blast
qed

text \<open>
  Claim C3. After \<open>t\<close> iterations of the loop, when the model is fitted for step \<open>t\<close>,
  the history is the first \<open>train_size + t\<close> observations of the series: it has that length,
  its last element is the observation before position \<open>train_size + t\<close>, no forecast is in it,
  and step \<open>t\<close> fits the model on it and appends the observation \<open>test[t]\<close> and nothing else.
\<close>

theorem expanding_window:
  assumes "t \<le> length X - train_size X"
    and "walk_forward ARIMA X ord t = Inr s"
  shows "length (history s) = train_size X + t
       \<and> history s = take (train_size X + t) X
       \<and> (history s \<noteq> [] \<longrightarrow> last (history s) = X ! (train_size X + t - 1))
       \<and> (t < length X - train_size X \<longrightarrow>
            walk_forward ARIMA X ord (Suc t) =
              (case ARIMA (history s) ord of
                 Inl e \<Rightarrow> Inl e
               | Inr yhat \<Rightarrow> Inr \<lparr>history = history s @ [X ! (train_size X + t)],
                                 predictions = predictions s @ [yhat]\<rparr>))"
proof -
  from walk_forward_invariant(1) [OF assms]
  have hist: "history s = take (train_size X + t) X" .
  from assms(1) train_size_le [of X] have le: "train_size X + t \<le> length X"
    by simp
  then have len: "length (history s) = train_size X + t"
    by (simp add: hist)
  have lst: "last (history s) = X ! (train_size X + t - 1)" if "history s \<noteq> []"
  proof -
    from that have "length (history s) \<noteq> 0" by simp
    with len have pos: "0 < train_size X + t" by simp
    with le have "take (train_size X + t) X \<noteq> []"
      by auto
    with le pos show ?thesis
      unfolding hist by (simp add: last_conv_nth)
  qed
  have step: "walk_forward ARIMA X ord (Suc t) =
      (case ARIMA (history s) ord of
         Inl e \<Rightarrow> Inl e
       | Inr yhat \<Rightarrow> Inr \<lparr>history = history s @ [X ! (train_size X + t)],
                         predictions = predictions s @ [yhat]\<rparr>)"
    if "t < length X - train_size X"
  proof -
    from assms(2) have "wf_loop ARIMA ord (drop (train_size X) X) [0..<t]
        \<lparr>history = take (train_size X) X, predictions = []\<rparr> = Inr s"
      by (simp add: walk_forward_def)
    moreover have "drop (train_size X) X ! t = X ! (train_size X + t)"
      using train_size_le [of X] by simp
    ultimately show ?thesis
      using that by (simp add: walk_forward_def wf_loop_snoc wf_step_def split: sum.splits)
  qed
  from hist len lst step show ?thesis
    by blast
qed

theorem expanding_window_witness:
  "(1::nat) \<le> length [1, 2, 3, 4 :: real] - train_size [1, 2, 3, 4]
   \<and> walk_forward naive [1, 2, 3, 4] (0, 0, 0) 1 = Inr \<lparr>history = [1, 2, 3], predictions = [2]\<rparr>
   \<and> [1, 2, 3] = take (train_size [1, 2, 3, 4] + 1) [1, 2, 3, 4 :: real]
   \<and> walk_forward naive [1, 2, 3, 4] (0, 0, 0) (Suc 1) =
       Inr \<lparr>history = [1, 2, 3, 4], predictions = [2, 3]\<rparr>"
proof -
  have h1: "(1::nat) \<le> length [1, 2, 3, 4 :: real] - train_size [1, 2, 3, 4]"
    by (simp add: train_size_example)
  have h2: "walk_forward naive [1, 2, 3, 4] (0, 0, 0) 1
      = Inr \<lparr>history = [1, 2, 3], predictions = [2]\<rparr>"
    by (simp add: walk_forward_def train_size_example wf_step_def naive_def)
  from expanding_window [OF h1 h2] h1 h2 show ?thesis
    by (simp add: train_size_example naive_def)
qed

section \<open>Properties of the grid search\<close>

lemma pyfloat_less_irrefl: "\<not> pyfloat_less a a"
  by (cases a) simp_all

lemma pyfloat_less_trans: "pyfloat_less a b \<Longrightarrow> pyfloat_less b c \<Longrightarrow> pyfloat_less a c"
  by (cases a; cases b; cases c) simp_all

lemma pyfloat_less_Num: "pyfloat_less a b \<Longrightarrow> \<exists>x. a = Num x"
  by (cases a) simp_all

lemma try_order_raised:
  "evaluate_arima_models A X c = Inl e \<Longrightarrow> try_order A X c s = s"
  by (simp add: try_order_def)

lemma try_order_not_better:
  "evaluate_arima_models A X c = Inr r \<Longrightarrow> \<not> pyfloat_less r (best_score s) \<Longrightarrow>
     try_order A X c s = s"
  by (simp add: try_order_def)

lemma try_order_better:
  "evaluate_arima_models A X c = Inr r \<Longrightarrow> pyfloat_less r (best_score s) \<Longrightarrow>
     try_order A X c s = \<lparr>best_score = r, best_cfg = Some c, out = out s @ [Progress c r]\<rparr>"
  by (simp add: try_order_def)

lemma try_order_cases:
  obtains (raised) e where "evaluate_arima_models A X c = Inl e" "try_order A X c s = s"
  | (not_better) r where "evaluate_arima_models A X c = Inr r" "\<not> pyfloat_less r (best_score s)"
      "try_order A X c s = s"
  | (better) r where "evaluate_arima_models A X c = Inr r" "pyfloat_less r (best_score s)"
      "try_order A X c s = \<lparr>best_score = r, best_cfg = Some c, out = out s @ [Progress c r]\<rparr>"
proof (cases "evaluate_arima_models A X c")
  case (Inl e)
  then show ?thesis
    using raised try_order_raised by blast
next
  case (Inr r)
  then show ?thesis
    using not_better better try_order_not_better try_order_better
    by (cases "pyfloat_less r (best_score s)") blast+
qed

lemma try_order_decreases:
  "best_score (try_order A X c s) = best_score s
     \<or> pyfloat_less (best_score (try_order A X c s)) (best_score s)"
  by (cases rule: try_order_cases [of A X c s]) simp_all

lemma fold_try_order_decreases:
  "best_score (fold (try_order A X) cs s) = best_score s
     \<or> pyfloat_less (best_score (fold (try_order A X) cs s)) (best_score s)"
proof (induction cs arbitrary: s)
  case Nil
  then show ?case by simp
next
  case (Cons c cs)
  from Cons.IH [of "try_order A X c s"] try_order_decreases [of A X c s]
  show ?case
    by (auto dest: pyfloat_less_trans)
qed

lemma fold_concat_map: "fold f (concat (map g xs)) = fold (\<lambda>x. fold f (g x)) xs"
  by (induction xs) simp_all

lemma grid_loops_candidates:
  "grid_loops A X ps ds qs = fold (try_order A X) (candidates ps ds qs)"
  by (simp add: grid_loops_def candidates_def fold_concat_map fold_map comp_def)

lemma candidates_product: "candidates ps ds qs = List.product ps (List.product ds qs)"
proof -
  have inner: "List.product ds qs = concat (map (\<lambda>d. map (Pair d) qs) ds)"
    by (induction ds) simp_all
  have outer: "List.product ps ys = concat (map (\<lambda>p. map (Pair p) ys) ps)" for ys :: "(int \<times> int) list"
    by (induction ps) simp_all
  show ?thesis
    unfolding candidates_def outer inner
    by (simp add: map_concat comp_def)
qed

text \<open>What holds of the variables after any list of candidates, from the initial ones.\<close>

lemma fold_try_order_invariant:
  fixes A X cs
  defines "s \<equiv> fold (try_order A X) cs initial"
  shows "(\<forall>c\<in>set cs. \<forall>r. evaluate_arima_models A X c = Inr r \<longrightarrow> \<not> pyfloat_less r (best_score s))
       \<and> (best_cfg s = None \<longrightarrow> best_score s = PosInf \<and> out s = [])
       \<and> (\<forall>c. best_cfg s = Some c \<longrightarrow>
            (\<exists>pre post. cs = pre @ c # post
               \<and> evaluate_arima_models A X c = Inr (best_score s)
               \<and> (\<forall>c'\<in>set pre. evaluate_arima_models A X c' \<noteq> Inr (best_score s))))"
  unfolding s_def
proof (induction cs rule: rev_induct)
  case Nil
  then show ?case by (simp add: initial_def)
next
  case (snoc c cs)
  let ?s = "fold (try_order A X) cs initial"
  have step: "fold (try_order A X) (cs @ [c]) initial = try_order A X c ?s"
    by simp
  from snoc.IH have seen: "\<And>c' r. c' \<in> set cs \<Longrightarrow> evaluate_arima_models A X c' = Inr r
      \<Longrightarrow> \<not> pyfloat_less r (best_score ?s)"
    and none: "best_cfg ?s = None \<Longrightarrow> best_score ?s = PosInf \<and> out ?s = []"
    and some: "\<And>c'. best_cfg ?s = Some c' \<Longrightarrow> \<exists>pre post. cs = pre @ c' # post
               \<and> evaluate_arima_models A X c' = Inr (best_score ?s)
               \<and> (\<forall>c''\<in>set pre. evaluate_arima_models A X c'' \<noteq> Inr (best_score ?s))"
    by blast+
  show ?case
  proof (cases rule: try_order_cases [of A X c ?s])
    case (raised e)
    have "\<exists>pre post. cs @ [c] = pre @ c' # post
               \<and> evaluate_arima_models A X c' = Inr (best_score ?s)
               \<and> (\<forall>c''\<in>set pre. evaluate_arima_models A X c'' \<noteq> Inr (best_score ?s))"
      if "best_cfg ?s = Some c'" for c'
    proof -
      from some [OF that] obtain pre post where "cs = pre @ c' # post"
        "evaluate_arima_models A X c' = Inr (best_score ?s)"
        "\<forall>c''\<in>set pre. evaluate_arima_models A X c'' \<noteq> Inr (best_score ?s)"
        by blast
      then have "cs @ [c] = pre @ c' # (post @ [c])"
        by simp
      with \<open>evaluate_arima_models A X c' = Inr (best_score ?s)\<close>
        \<open>\<forall>c''\<in>set pre. evaluate_arima_models A X c'' \<noteq> Inr (best_score ?s)\<close>
      show ?thesis by blast
    qed
    with raised seen none show ?thesis
      unfolding step by auto
  next
    case (not_better r)
    have "\<exists>pre post. cs @ [c] = pre @ c' # post
               \<and> evaluate_arima_models A X c' = Inr (best_score ?s)
               \<and> (\<forall>c''\<in>set pre. evaluate_arima_models A X c'' \<noteq> Inr (best_score ?s))"
      if "best_cfg ?s = Some c'" for c'
    proof -
      from some [OF that] obtain pre post where "cs = pre @ c' # post"
        "evaluate_arima_models A X c' = Inr (best_score ?s)"
        "\<forall>c''\<in>set pre. evaluate_arima_models A X c'' \<noteq> Inr (best_score ?s)"
        by blast
      then have "cs @ [c] = pre @ c' # (post @ [c])"
        by simp
      with \<open>evaluate_arima_models A X c' = Inr (best_score ?s)\<close>
        \<open>\<forall>c''\<in>set pre. evaluate_arima_models A X c'' \<noteq> Inr (best_score ?s)\<close>
      show ?thesis by blast
    qed
    with not_better seen none show ?thesis
      unfolding step by auto
  next
    case (better r)
    have a: "\<not> pyfloat_less r' r" if "c' \<in> set (cs @ [c])" "evaluate_arima_models A X c' = Inr r'"
      for c' r'
    proof (cases "c' = c")
      case True
      with that better(1) show ?thesis
        by (simp add: pyfloat_less_irrefl)
    next
      case False
      with that have "\<not> pyfloat_less r' (best_score ?s)"
        using seen by auto
      with better(2) show ?thesis
        using pyfloat_less_trans by blast
    qed
    have b: "evaluate_arima_models A X c' \<noteq> Inr r" if "c' \<in> set cs" for c'
      using seen [OF that] better(2) by blast
    have "cs @ [c] = cs @ c # []"
      by simp
    with b better(1) have "\<exists>pre post. cs @ [c] = pre @ c # post
        \<and> evaluate_arima_models A X c = Inr r
        \<and> (\<forall>c'\<in>set pre. evaluate_arima_models A X c' \<noteq> Inr r)"
      by blast
    with a show ?thesis
      unfolding step better(3) by simp
  qed
qed

lemma fold_try_order_filter:
  "fold (try_order A X) (filter (\<lambda>c. \<not> isl (evaluate_arima_models A X c)) cs) s
     = fold (try_order A X) cs s"
proof (induction cs arbitrary: s)
  case Nil
  then show ?case by simp
next
  case (Cons c cs)
  show ?case
  proof (cases "evaluate_arima_models A X c")
    case (Inl e)
    then show ?thesis
      using Cons.IH by (simp add: try_order_raised)
  next
    case (Inr r)
    then show ?thesis
      using Cons.IH by simp
  qed
qed

lemma best_result_fold:
  "best_result A f X ps ds qs = fold (try_order A (map f X)) (candidates ps ds qs) initial"
  by (simp add: best_result_def grid_loops_candidates)

text \<open>
  Claim C2. Whatever subset of the candidate orders makes \<^verbatim>\<open>evaluate_arima_models\<close> raise, the
  grid search runs to its end: the final variables are those of the same search over the
  orders that do not raise, no order that returned has an error below the final best score,
  a retained order is a candidate that returned exactly the best score, an order is retained as
  soon as one candidate returned a number, and the closing line printed carries that result.
\<close>

theorem failing_orders_are_skipped:
  fixes ARIMA as_float dataset p_values d_values q_values
  defines "X \<equiv> map as_float dataset"
    and "cs \<equiv> candidates p_values d_values q_values"
    and "s \<equiv> best_result ARIMA as_float dataset p_values d_values q_values"
  shows "s = fold (try_order ARIMA X) (filter (\<lambda>c. \<not> isl (evaluate_arima_models ARIMA X c)) cs) initial
       \<and> (\<forall>c\<in>set cs. \<forall>r. evaluate_arima_models ARIMA X c = Inr r \<longrightarrow> \<not> pyfloat_less r (best_score s))
       \<and> (\<forall>c. best_cfg s = Some c \<longrightarrow> c \<in> set cs \<and> evaluate_arima_models ARIMA X c = Inr (best_score s))
       \<and> ((\<exists>c\<in>set cs. \<exists>e. evaluate_arima_models ARIMA X c = Inr (Num e)) \<longrightarrow> best_cfg s \<noteq> None)
       \<and> printed (evaluate_models ARIMA as_float dataset p_values d_values q_values)
           = out s @ [Best (best_cfg s) (best_score s)]"
proof -
  have s: "s = fold (try_order ARIMA X) cs initial"
    by (simp add: s_def X_def cs_def best_result_fold)
  note inv = fold_try_order_invariant [where A = ARIMA and X = X and cs = cs, folded s]
  have skipped: "s = fold (try_order ARIMA X)
      (filter (\<lambda>c. \<not> isl (evaluate_arima_models ARIMA X c)) cs) initial"
    by (simp add: s fold_try_order_filter)
  from inv have lowest: "\<forall>c\<in>set cs. \<forall>r. evaluate_arima_models ARIMA X c = Inr r
      \<longrightarrow> \<not> pyfloat_less r (best_score s)"
    by blast
  have from_cs: "c \<in> set cs \<and> evaluate_arima_models ARIMA X c = Inr (best_score s)"
    if "best_cfg s = Some c" for c
    using inv that by fastforce
  have found: "best_cfg s \<noteq> None"
    if "\<exists>c\<in>set cs. \<exists>e. evaluate_arima_models ARIMA X c = Inr (Num e)"
  proof
    assume "best_cfg s = None"
    with inv have "best_score s = PosInf"
      by blast
    moreover from that lowest obtain e where "\<not> pyfloat_less (Num e) (best_score s)"
      by blast
    ultimately show False
      by simp
  qed
  have "printed (evaluate_models ARIMA as_float dataset p_values d_values q_values)
      = out s @ [Best (best_cfg s) (best_score s)]"
    by (simp add: evaluate_models_def s_def Let_def)
  with skipped lowest from_cs found show ?thesis
    by blast
qed

lemma eval_naive:
  "evaluate_arima_models naive [1, 2, 3, 4] (p, d, q) =
     (if p < 0 then Inl ValueError else Inr (Num \<bar>1 - real_of_int q\<bar>))"
  by (simp add: evaluate_arima_models_def walk_forward_def train_size_example upt_2
      wf_step_def naive_def rmse_def)

lemma best_result_example:
  "best_result naive id [1, 2, 3, 4] [- 1, 0] [0] [0, 1, 2]
     = \<lparr>best_score = Num 0, best_cfg = Some (0, 0, 1),
         out = [Progress (0, 0, 0) (Num 1), Progress (0, 0, 1) (Num 0)]\<rparr>"
  by (simp add: best_result_def grid_loops_def try_order_def eval_naive initial_def)

lemma candidates_example:
  "candidates [- 1, 0] [0] [0, 1, 2] = [(- 1, 0, 0), (- 1, 0, 1), (- 1, 0, 2), (0, 0, 0), (0, 0, 1), (0, 0, 2)]"
  by (simp add: candidates_def)

theorem failing_orders_are_skipped_witness:
  "evaluate_arima_models naive [1, 2, 3, 4] (- 1, 0, 0) = Inl ValueError
   \<and> evaluate_arima_models naive [1, 2, 3, 4] (- 1, 0, 1) = Inl ValueError
   \<and> evaluate_arima_models naive [1, 2, 3, 4] (- 1, 0, 2) = Inl ValueError
   \<and> best_result naive id [1, 2, 3, 4] [- 1, 0] [0] [0, 1, 2]
       = fold (try_order naive [1, 2, 3, 4]) [(0, 0, 0), (0, 0, 1), (0, 0, 2)] initial
   \<and> best_cfg (best_result naive id [1, 2, 3, 4] [- 1, 0] [0] [0, 1, 2]) = Some (0, 0, 1)
   \<and> best_score (best_result naive id [1, 2, 3, 4] [- 1, 0] [0] [0, 1, 2]) = Num 0
   \<and> printed (evaluate_models naive id [1, 2, 3, 4] [- 1, 0] [0] [0, 1, 2])
       = [Progress (0, 0, 0) (Num 1), Progress (0, 0, 1) (Num 0), Best (Some (0, 0, 1)) (Num 0)]"
  using failing_orders_are_skipped [of naive id "[1, 2, 3, 4]" "[- 1, 0]" "[0]" "[0, 1, 2]"]
  by (simp add: candidates_example eval_naive best_result_example try_order_def initial_def)

lemma state_after_Suc:
  "k < length cs \<Longrightarrow> state_after A X cs (Suc k) = try_order A X (cs ! k) (state_after A X cs k)"
  by (simp add: state_after_def take_Suc_conv_app_nth)

lemma state_after_all: "state_after A X cs (length cs) = fold (try_order A X) cs initial"
  by (simp add: state_after_def)

lemma state_after_mono:
  assumes "j \<le> k"
  shows "best_score (state_after A X cs k) = best_score (state_after A X cs j)
       \<or> pyfloat_less (best_score (state_after A X cs k)) (best_score (state_after A X cs j))"
proof -
  from assms have "take k cs = take j cs @ take (k - j) (drop j cs)"
    by (metis le_add_diff_inverse take_add)
  then have "state_after A X cs k
      = fold (try_order A X) (take (k - j) (drop j cs)) (state_after A X cs j)"
    by (simp add: state_after_def)
  then show ?thesis
    using fold_try_order_decreases [of A X "take (k - j) (drop j cs)" "state_after A X cs j"]
    by simp
qed

lemma state_after_step:
  "state_after A X cs (Suc k) = state_after A X cs k
     \<or> pyfloat_less (best_score (state_after A X cs (Suc k))) (best_score (state_after A X cs k))"
proof (cases "k < length cs")
  case True
  show ?thesis
    unfolding state_after_Suc [OF True]
    by (cases rule: try_order_cases [of A X "cs ! k" "state_after A X cs k"]) simp_all
next
  case False
  then show ?thesis
    by (simp add: state_after_def)
qed

text \<open>
  Claim C4. Over one grid search the best score never increases. Before the first candidate
  it is positive infinity; each candidate either leaves the variables as they are or replaces
  the best score by a strictly smaller one; so after \<open>k\<close> candidates it is equal to or
  strictly below what it was after \<open>j \<le> k\<close> candidates. The variables after all candidates
  are those \<^verbatim>\<open>evaluate_models\<close> ends with.
\<close>

theorem best_score_never_increases:
  fixes ARIMA as_float dataset p_values d_values q_values
  defines "cs \<equiv> candidates p_values d_values q_values"
  defines "st \<equiv> state_after ARIMA (map as_float dataset) cs"
  shows "best_score (st 0) = PosInf
       \<and> st (length cs) = best_result ARIMA as_float dataset p_values d_values q_values
       \<and> (k < length cs \<longrightarrow> st (Suc k) = try_order ARIMA (map as_float dataset) (cs ! k) (st k))
       \<and> (st (Suc k) = st k \<or> pyfloat_less (best_score (st (Suc k))) (best_score (st k)))
       \<and> (j \<le> k \<longrightarrow>
            best_score (st k) = best_score (st j)
              \<or> pyfloat_less (best_score (st k)) (best_score (st j)))"
proof -
  have "best_score (st 0) = PosInf"
    by (simp add: st_def state_after_def initial_def)
  moreover have "st (length cs) = best_result ARIMA as_float dataset p_values d_values q_values"
    by (simp add: st_def cs_def state_after_all best_result_fold)
  moreover have "k < length cs \<longrightarrow>
      st (Suc k) = try_order ARIMA (map as_float dataset) (cs ! k) (st k)"
    by (simp add: st_def state_after_Suc)
  moreover have "st (Suc k) = st k \<or> pyfloat_less (best_score (st (Suc k))) (best_score (st k))"
    unfolding st_def by (rule state_after_step)
  moreover have "best_score (st k) = best_score (st j)
      \<or> pyfloat_less (best_score (st k)) (best_score (st j))" if "j \<le> k"
    unfolding st_def using that by (rule state_after_mono)
  ultimately show ?thesis
    by blast
qed

theorem best_score_never_increases_witness:
  "(1::nat) \<le> 3
   \<and> best_score (state_after naive (map id [1, 2, 3, 4]) (candidates [0] [0] [0, 1, 2]) 1) = Num 1
   \<and> best_score (state_after naive (map id [1, 2, 3, 4]) (candidates [0] [0] [0, 1, 2]) 3) = Num 0
   \<and> pyfloat_less (best_score (state_after naive (map id [1, 2, 3, 4]) (candidates [0] [0] [0, 1, 2]) 3))
       (best_score (state_after naive (map id [1, 2, 3, 4]) (candidates [0] [0] [0, 1, 2]) 1))"
proof -
  have h: "(1::nat) \<le> 3"
    by simp
  have c: "candidates [0] [0] [0, 1, 2] = [(0, 0, 0), (0, 0, 1), (0, 0, 2)]"
    by (simp add: candidates_def)
  from best_score_never_increases [where ARIMA = naive and as_float = id
      and dataset = "[1, 2, 3, 4]" and p_values = "[0]" and d_values = "[0]"
      and q_values = "[0, 1, 2]" and j = 1 and k = 3] h
  show ?thesis
    by (simp add: c state_after_def best_result_def grid_loops_def try_order_def eval_naive
        initial_def)
qed

lemma candidates_length:
  "length (candidates ps ds qs) = length ps * (length ds * length qs)"
  by (simp add: candidates_product)

lemma index_bound:
  fixes j d k q :: nat
  assumes "j < d" "k < q"
  shows "j * q + k < d * q"
proof -
  from assms(2) have "j * q + k < Suc j * q"
    by simp
  also from assms(1) have "Suc j * q \<le> d * q"
    by (intro mult_le_mono1) simp
  finally show ?thesis .
qed

lemma index_div_mod:
  fixes i m r :: nat
  assumes "r < m"
  shows "(i * m + r) div m = i" and "(i * m + r) mod m = r"
  using assms by simp_all

lemma candidates_nth:
  assumes "i < length ps" "j < length ds" "k < length qs"
  shows "candidates ps ds qs ! ((i * length ds + j) * length qs + k) = (ps ! i, ds ! j, qs ! k)"
proof -
  let ?m = "length ds * length qs"
  let ?n2 = "j * length qs + k"
  have n2: "?n2 < ?m"
    using assms(2,3) by (rule index_bound)
  have n: "(i * length ds + j) * length qs + k = i * ?m + ?n2"
    by (simp add: algebra_simps)
  have "i * ?m + ?n2 < length ps * ?m"
    using assms(1) n2 by (rule index_bound)
  then have "List.product ps (List.product ds qs) ! (i * ?m + ?n2)
      = (ps ! ((i * ?m + ?n2) div ?m), List.product ds qs ! ((i * ?m + ?n2) mod ?m))"
    by (simp add: product_nth)
  also have "\<dots> = (ps ! i, List.product ds qs ! ?n2)"
    unfolding index_div_mod [OF n2] ..
  also have "List.product ds qs ! ?n2 = (ds ! (?n2 div length qs), qs ! (?n2 mod length qs))"
    using n2 by (simp add: product_nth)
  also have "\<dots> = (ds ! j, qs ! k)"
    unfolding index_div_mod [OF assms(3)] ..
  finally show ?thesis
    unfolding candidates_product n .
qed

lemma fold_try_order_Num:
  "best_cfg (fold (try_order A X) cs initial) = Some c
     \<Longrightarrow> \<exists>x. best_score (fold (try_order A X) cs initial) = Num x"
proof (induction cs rule: rev_induct)
  case Nil
  then show ?case by (simp add: initial_def)
next
  case (snoc c' cs)
  show ?case
  proof (cases rule: try_order_cases [of A X c' "fold (try_order A X) cs initial"])
    case (raised e)
    with snoc show ?thesis by simp
  next
    case (not_better r)
    with snoc show ?thesis by simp
  next
    case (better r)
    from pyfloat_less_Num [OF better(2)] better(3) show ?thesis
      by simp
  qed
qed

lemma first_occurrence:
  assumes "pre @ a # r = pre' @ b # r'" and "a \<notin> set pre'"
  shows "b \<in> set pre \<or> (b = a \<and> pre' = pre)"
  using assms by (auto simp: append_eq_append_conv2 Cons_eq_append_conv append_eq_Cons_conv)

lemma equal_error_later:
  fixes ARIMA as_float dataset p_values d_values q_values
  defines "X \<equiv> map as_float dataset"
    and "cs \<equiv> candidates p_values d_values q_values"
    and "s \<equiv> best_result ARIMA as_float dataset p_values d_values q_values"
  assumes enum: "cs = pre @ c1 # mid @ c2 # post"
    and e1: "evaluate_arima_models ARIMA X c1 = Inr e"
    and e2: "evaluate_arima_models ARIMA X c2 = Inr e"
  shows "try_order ARIMA X c2 (fold (try_order ARIMA X) (pre @ c1 # mid) initial)
            = fold (try_order ARIMA X) (pre @ c1 # mid) initial
       \<and> (best_cfg s = Some c2 \<longrightarrow> c2 \<in> set pre \<or> c2 = c1)
       \<and> ((\<exists>x. e = Num x)
            \<and> (\<forall>c\<in>set cs. \<forall>r. evaluate_arima_models ARIMA X c = Inr r \<longrightarrow> \<not> pyfloat_less r e)
            \<and> (\<forall>c\<in>set pre. evaluate_arima_models ARIMA X c \<noteq> Inr e)
            \<longrightarrow> best_cfg s = Some c1 \<and> best_score s = e)"
proof -
  have s: "s = fold (try_order ARIMA X) cs initial"
    by (simp add: s_def X_def cs_def best_result_fold)
  note inv = fold_try_order_invariant [where A = ARIMA and X = X and cs = cs, folded s]
  have later: "try_order ARIMA X c2 (fold (try_order ARIMA X) (pre @ c1 # mid) initial)
      = fold (try_order ARIMA X) (pre @ c1 # mid) initial"
  proof -
    have "c1 \<in> set (pre @ c1 # mid)"
      by simp
    with fold_try_order_invariant [where A = ARIMA and X = X and cs = "pre @ c1 # mid"] e1
    have "\<not> pyfloat_less e (best_score (fold (try_order ARIMA X) (pre @ c1 # mid) initial))"
      by blast
    with e2 show ?thesis
      by (rule try_order_not_better)
  qed
  have not_c2: "c2 \<in> set pre \<or> c2 = c1" if "best_cfg s = Some c2"
  proof -
    from inv that obtain pre' post' where cs': "cs = pre' @ c2 # post'"
      and best: "evaluate_arima_models ARIMA X c2 = Inr (best_score s)"
      and first: "\<forall>c'\<in>set pre'. evaluate_arima_models ARIMA X c' \<noteq> Inr (best_score s)"
      by blast
    from best e2 have "best_score s = e"
      by simp
    with first e1 have "c1 \<notin> set pre'"
      by blast
    with first_occurrence [of pre c1 "mid @ c2 # post" pre' c2 post'] enum cs'
    show ?thesis
      by auto
  qed
  have wins: "best_cfg s = Some c1 \<and> best_score s = e"
    if num: "\<exists>x. e = Num x"
      and lowest: "\<forall>c\<in>set cs. \<forall>r. evaluate_arima_models ARIMA X c = Inr r \<longrightarrow> \<not> pyfloat_less r e"
      and earliest: "\<forall>c\<in>set pre. evaluate_arima_models ARIMA X c \<noteq> Inr e"
  proof -
    from num obtain x where x: "e = Num x"
      by blast
    have c1: "c1 \<in> set cs"
      by (simp add: enum)
    with inv e1 have ge: "\<not> pyfloat_less e (best_score s)"
      by blast
    have "best_cfg s \<noteq> None"
    proof
      assume "best_cfg s = None"
      with inv have "best_score s = PosInf"
        by blast
      with ge x show False
        by simp
    qed
    then obtain c where c: "best_cfg s = Some c"
      by blast
    with inv obtain pre' post' where cs': "cs = pre' @ c # post'"
      and best: "evaluate_arima_models ARIMA X c = Inr (best_score s)"
      and first: "\<forall>c'\<in>set pre'. evaluate_arima_models ARIMA X c' \<noteq> Inr (best_score s)"
      by blast
    from fold_try_order_Num [of ARIMA X cs c] c obtain b where b: "best_score s = Num b"
      by (auto simp: s)
    from cs' have "c \<in> set cs"
      by simp
    with lowest best have "\<not> pyfloat_less (best_score s) e"
      by blast
    with ge have eq: "best_score s = e"
      by (simp add: b x)
    with first e1 have "c1 \<notin> set pre'"
      by blast
    with first_occurrence [of pre c1 "mid @ c2 # post" pre' c post'] enum cs'
    have "c \<in> set pre \<or> c = c1"
      by auto
    moreover from earliest best eq have "c \<notin> set pre"
      by auto
    ultimately show ?thesis
      using c eq by simp
  qed
  from later not_c2 wins show ?thesis
    by blast
qed

text \<open>
  Claim C5. The three loops visit the Cartesian product of the candidate lists with \<open>p\<close>
  outermost, \<open>d\<close> in the middle and \<open>q\<close> innermost: the triple of positions \<open>i\<close>, \<open>j\<close>,
  \<open>k\<close> is visited at position \<open>(i * length d_values + j) * length q_values + k\<close>. When an
  order \<open>c1\<close> is visited before an order \<open>c2\<close> and both return the same error, visiting \<open>c2\<close>
  leaves the best result as it is (the comparison is strict), so \<open>c2\<close> is retained at the
  end only if it is \<open>c1\<close> or was itself visited before \<open>c1\<close>; and when that error is
  the lowest of all candidates and \<open>c1\<close> the first to return it, the order retained is
  \<open>c1\<close>.
\<close>

theorem first_enumerated_wins_ties:
  fixes ARIMA as_float dataset p_values d_values q_values
  defines "X \<equiv> map as_float dataset"
    and "cs \<equiv> candidates p_values d_values q_values"
    and "s \<equiv> best_result ARIMA as_float dataset p_values d_values q_values"
  shows "s = fold (try_order ARIMA X) cs initial
       \<and> length cs = length p_values * (length d_values * length q_values)
       \<and> (\<forall>i<length p_values. \<forall>j<length d_values. \<forall>k<length q_values.
            cs ! ((i * length d_values + j) * length q_values + k)
              = (p_values ! i, d_values ! j, q_values ! k))
       \<and> (cs = pre @ c1 # mid @ c2 # post
            \<and> evaluate_arima_models ARIMA X c1 = Inr e
            \<and> evaluate_arima_models ARIMA X c2 = Inr e
          \<longrightarrow>
            try_order ARIMA X c2 (fold (try_order ARIMA X) (pre @ c1 # mid) initial)
              = fold (try_order ARIMA X) (pre @ c1 # mid) initial
            \<and> (best_cfg s = Some c2 \<longrightarrow> c2 \<in> set pre \<or> c2 = c1)
            \<and> ((\<exists>x. e = Num x)
                 \<and> (\<forall>c\<in>set cs. \<forall>r. evaluate_arima_models ARIMA X c = Inr r
                        \<longrightarrow> \<not> pyfloat_less r e)
                 \<and> (\<forall>c\<in>set pre. evaluate_arima_models ARIMA X c \<noteq> Inr e)
                 \<longrightarrow> best_cfg s = Some c1 \<and> best_score s = e))"
proof -
  have "s = fold (try_order ARIMA X) cs initial"
    by (simp add: s_def X_def cs_def best_result_fold)
  moreover have "length cs = length p_values * (length d_values * length q_values)"
    by (simp add: cs_def candidates_length)
  moreover have "\<forall>i<length p_values. \<forall>j<length d_values. \<forall>k<length q_values.
      cs ! ((i * length d_values + j) * length q_values + k)
        = (p_values ! i, d_values ! j, q_values ! k)"
    by (simp add: cs_def candidates_nth)
  moreover have "try_order ARIMA X c2 (fold (try_order ARIMA X) (pre @ c1 # mid) initial)
        = fold (try_order ARIMA X) (pre @ c1 # mid) initial
      \<and> (best_cfg s = Some c2 \<longrightarrow> c2 \<in> set pre \<or> c2 = c1)
      \<and> ((\<exists>x. e = Num x)
           \<and> (\<forall>c\<in>set cs. \<forall>r. evaluate_arima_models ARIMA X c = Inr r
                  \<longrightarrow> \<not> pyfloat_less r e)
           \<and> (\<forall>c\<in>set pre. evaluate_arima_models ARIMA X c \<noteq> Inr e)
           \<longrightarrow> best_cfg s = Some c1 \<and> best_score s = e)"
    if "cs = pre @ c1 # mid @ c2 # post"
      and "evaluate_arima_models ARIMA X c1 = Inr e"
      and "evaluate_arima_models ARIMA X c2 = Inr e"
    using equal_error_later [of p_values d_values q_values pre c1 mid c2 post ARIMA as_float
        dataset e] that
    unfolding X_def cs_def s_def by blast
  ultimately show ?thesis
    by blast
qed

theorem first_enumerated_wins_ties_witness:
  "candidates [0] [0] [0, 2] = [] @ (0, 0, 0) # [] @ (0, 0, 2) # []
   \<and> evaluate_arima_models naive (map id [1, 2, 3, 4]) (0, 0, 0) = Inr (Num 1)
   \<and> evaluate_arima_models naive (map id [1, 2, 3, 4]) (0, 0, 2) = Inr (Num 1)
   \<and> best_cfg (best_result naive id [1, 2, 3, 4] [0] [0] [0, 2]) = Some (0, 0, 0)
   \<and> best_score (best_result naive id [1, 2, 3, 4] [0] [0] [0, 2]) = Num 1"
proof -
  have h1: "candidates [0] [0] [0, 2] = [] @ (0, 0, 0) # [] @ (0, 0, 2) # []"
    by (simp add: candidates_def)
  have h2: "evaluate_arima_models naive (map id [1, 2, 3, 4]) (0, 0, 0) = Inr (Num 1)"
    by (simp add: eval_naive)
  have h3: "evaluate_arima_models naive (map id [1, 2, 3, 4]) (0, 0, 2) = Inr (Num 1)"
    by (simp add: eval_naive)
  from first_enumerated_wins_ties [where ARIMA = naive and as_float = id
      and dataset = "[1, 2, 3, 4]" and p_values = "[0]" and d_values = "[0]"
      and q_values = "[0, 2]" and pre = "[]" and ?c1.0 = "(0, 0, 0)" and mid = "[]"
      and ?c2.0 = "(0, 0, 2)" and post = "[]" and e = "Num 1"] h1 h2 h3
  have "(\<exists>x::real. Num 1 = Num x)
      \<and> (\<forall>c\<in>set (candidates [0] [0] [0, 2]). \<forall>r.
           evaluate_arima_models naive (map id [1, 2, 3, 4]) c = Inr r \<longrightarrow> \<not> pyfloat_less r (Num 1))
      \<and> (\<forall>c\<in>set []. evaluate_arima_models naive (map id [1, 2, 3, 4]) c \<noteq> Inr (Num 1))
      \<longrightarrow> best_cfg (best_result naive id [1, 2, 3, 4] [0] [0] [0, 2]) = Some (0, 0, 0)
        \<and> best_score (best_result naive id [1, 2, 3, 4] [0] [0] [0, 2]) = Num 1"
    by blast
  moreover have "\<forall>c\<in>set (candidates [0] [0] [0, 2]). \<forall>r.
      evaluate_arima_models naive (map id [1, 2, 3, 4]) c = Inr r \<longrightarrow> \<not> pyfloat_less r (Num 1)"
    by (auto simp: candidates_def eval_naive)
  ultimately have "best_cfg (best_result naive id [1, 2, 3, 4] [0] [0] [0, 2]) = Some (0, 0, 0)
      \<and> best_score (best_result naive id [1, 2, 3, 4] [0] [0] [0, 2]) = Num 1"
    by simp
  with h1 h2 h3 show ?thesis
    by blast
qed

lemma evaluate_models_example:
  "evaluate_models naive id [1, 2, 3, 4] [0] [0] [0]
     = \<lparr>returned = None,
        printed = [Progress (0, 0, 0) (Num 1), Best (Some (0, 0, 0)) (Num 1)]\<rparr>"
  by (simp add: evaluate_models_def best_result_def grid_loops_def try_order_def eval_naive
      initial_def)

lemma best_result_single:
  "best_result naive id [1, 2, 3, 4] [0] [0] [0]
     = \<lparr>best_score = Num 1, best_cfg = Some (0, 0, 0), out = [Progress (0, 0, 0) (Num 1)]\<rparr>"
  by (simp add: best_result_def grid_loops_def try_order_def eval_naive initial_def)

text \<open>
  Claim C6, as stated, fails: for the series 1, 2, 3, 4 and the single order (0, 0, 0) the
  best configuration is (0, 0, 0) with error 1, and the value returned is \<^verbatim>\<open>None\<close>.
\<close>

theorem evaluate_models_returns_pair_counterexample:
  "best_cfg (best_result naive id [1, 2, 3, 4] [0] [0] [0]) = Some (0, 0, 0)
   \<and> best_score (best_result naive id [1, 2, 3, 4] [0] [0] [0]) = Num 1
   \<and> returned (evaluate_models naive id [1, 2, 3, 4] [0] [0] [0]) \<noteq> Some (Some (0, 0, 0), Num 1)"
  by (simp add: evaluate_models_example best_result_single)

text \<open>
  Claim C6, amended. \<^verbatim>\<open>evaluate_models\<close> returns \<^verbatim>\<open>None\<close> for every input; it hands the pair of
  the best configuration and the best error to its caller only as the arguments of the last
  line it prints, after the lines of the improving orders.
\<close>

theorem evaluate_models_prints_best:
  fixes ARIMA as_float dataset p_values d_values q_values
  defines "s \<equiv> best_result ARIMA as_float dataset p_values d_values q_values"
    and "r \<equiv> evaluate_models ARIMA as_float dataset p_values d_values q_values"
  shows "returned r = None
       \<and> printed r = out s @ [Best (best_cfg s) (best_score s)]
       \<and> last (printed r) = Best (best_cfg s) (best_score s)"
  by (simp add: r_def s_def evaluate_models_def Let_def)

theorem evaluate_models_prints_best_witness:
  "returned (evaluate_models naive id [1, 2, 3, 4] [0] [0] [0]) = None
   \<and> last (printed (evaluate_models naive id [1, 2, 3, 4] [0] [0] [0])) = Best (Some (0, 0, 0)) (Num 1)"
  using evaluate_models_prints_best [of naive id "[1, 2, 3, 4]" "[0]" "[0]" "[0]"]
  by (simp add: best_result_single)

lemma eval_failing: "evaluate_arima_models failing [1, 2, 3, 4] c = Inl LinAlgError"
  by (simp add: evaluate_arima_models_def walk_forward_def train_size_example upt_2
      wf_step_def failing_def)

lemma evaluate_models_failing:
  "evaluate_models failing id [1, 2, 3, 4] [0] [0] [0]
     = \<lparr>returned = None, printed = [Best None PosInf]\<rparr>"
  by (simp add: evaluate_models_def best_result_def grid_loops_def try_order_def eval_failing
      initial_def)

text \<open>
  Claim C7, as stated, fails: with a model that always raises, the search over the single
  order (0, 0, 0) returns \<^verbatim>\<open>None\<close> and prints one line, of the same format as the closing line
  of a search that found the order (0, 0, 0), with the initial pair as its arguments.
\<close>

theorem no_success_reported_like_best_counterexample:
  "evaluate_models failing id [1, 2, 3, 4] [0] [0] [0]
     = \<lparr>returned = None, printed = [Best None PosInf]\<rparr>
   \<and> evaluate_models naive id [1, 2, 3, 4] [0] [0] [0]
     = \<lparr>returned = None, printed = [Progress (0, 0, 0) (Num 1), Best (Some (0, 0, 0)) (Num 1)]\<rparr>
   \<and> format_of (last (printed (evaluate_models failing id [1, 2, 3, 4] [0] [0] [0])))
     = format_of (last (printed (evaluate_models naive id [1, 2, 3, 4] [0] [0] [0])))"
  by (simp add: evaluate_models_failing evaluate_models_example)

lemma fold_try_order_nothing:
  assumes "\<forall>c\<in>set cs. \<forall>e. evaluate_arima_models A X c \<noteq> Inr (Num e)"
  shows "fold (try_order A X) cs initial = initial"
  using assms
proof (induction cs)
  case Nil
  then show ?case by simp
next
  case (Cons c cs)
  have "try_order A X c initial = initial"
  proof (cases rule: try_order_cases [of A X c initial])
    case (better r)
    from pyfloat_less_Num [OF better(2)] better(1) Cons.prems show ?thesis
      by auto
  qed simp_all
  with Cons show ?case
    by simp
qed

text \<open>
  Claim C7, amended. When no candidate returns a number, in particular when every candidate
  raises, \<^verbatim>\<open>evaluate_models\<close> returns \<^verbatim>\<open>None\<close> and prints nothing but the closing line, with the
  initial pair (no configuration, positive infinity) as its arguments. The closing line has
  the same format in every run; a run that found a best result is told apart by the
  arguments only: as soon as one candidate returns a number, they are a configuration and
  a number.
\<close>

theorem no_success_prints_initial_pair:
  fixes ARIMA as_float dataset p_values d_values q_values
  defines "X \<equiv> map as_float dataset"
    and "cs \<equiv> candidates p_values d_values q_values"
    and "r \<equiv> evaluate_models ARIMA as_float dataset p_values d_values q_values"
  shows "((\<forall>c\<in>set cs. \<forall>e. evaluate_arima_models ARIMA X c \<noteq> Inr (Num e))
            \<longrightarrow> r = \<lparr>returned = None, printed = [Best None PosInf]\<rparr>)
       \<and> ((\<exists>c\<in>set cs. \<exists>e. evaluate_arima_models ARIMA X c = Inr (Num e))
            \<longrightarrow> (\<exists>c e. last (printed r) = Best (Some c) (Num e)))
       \<and> format_of (last (printed r)) = ''Best ARIMA order %s and RMSE = %.3f''"
proof -
  let ?s = "fold (try_order ARIMA X) cs initial"
  have r: "r = \<lparr>returned = None, printed = out ?s @ [Best (best_cfg ?s) (best_score ?s)]\<rparr>"
    by (simp add: r_def evaluate_models_def best_result_fold X_def cs_def Let_def)
  have none: "r = \<lparr>returned = None, printed = [Best None PosInf]\<rparr>"
    if "\<forall>c\<in>set cs. \<forall>e. evaluate_arima_models ARIMA X c \<noteq> Inr (Num e)"
    unfolding r fold_try_order_nothing [OF that] by (simp add: initial_def)
  have some: "\<exists>c e. last (printed r) = Best (Some c) (Num e)"
    if "\<exists>c\<in>set cs. \<exists>e. evaluate_arima_models ARIMA X c = Inr (Num e)"
  proof -
    note inv = fold_try_order_invariant [where A = ARIMA and X = X and cs = cs]
    from that inv obtain e where "\<not> pyfloat_less (Num e) (best_score ?s)"
      by blast
    then have "best_score ?s \<noteq> PosInf"
      by auto
    with inv obtain c where c: "best_cfg ?s = Some c"
      by fastforce
    from fold_try_order_Num [OF this] obtain x where "best_score ?s = Num x"
      by blast
    with c have "last (printed r) = Best (Some c) (Num x)"
      by (simp add: r)
    then show ?thesis
      by blast
  qed
  have "format_of (last (printed r)) = ''Best ARIMA order %s and RMSE = %.3f''"
    by (simp add: r)
  with none some show ?thesis
    by blast
qed


theorem no_success_prints_initial_pair_witness:
  "evaluate_arima_models failing (map id [1, 2, 3, 4]) (0, 0, 0) = Inl LinAlgError
   \<and> candidates [0] [0] [0] = [(0, 0, 0)]
   \<and> evaluate_models failing id [1, 2, 3, 4] [0] [0] [0]
       = \<lparr>returned = None, printed = [Best None PosInf]\<rparr>"
proof -
  have c: "candidates [0] [0] [0] = [(0, 0, 0)]"
    by (simp add: candidates_def)
  have e: "evaluate_arima_models failing (map id [1, 2, 3, 4]) (0, 0, 0) = Inl LinAlgError"
    by (simp add: eval_failing)
  from no_success_prints_initial_pair [where ARIMA = failing and as_float = id
      and dataset = "[1, 2, 3, 4]" and p_values = "[0]" and d_values = "[0]" and q_values = "[0]"]
  have "evaluate_models failing id [1, 2, 3, 4] [0] [0] [0]
      = \<lparr>returned = None, printed = [Best None PosInf]\<rparr>"
    unfolding c using e by simp
  with c e show ?thesis
    by blast
qed

lemma candidates_empty:
  "p_values = [] \<or> d_values = [] \<or> q_values = [] \<Longrightarrow> candidates p_values d_values q_values = []"
  by (auto simp: candidates_def)

section \<open>The functions on a store\<close>

lemma nested_fold_candidates:
  "fold (\<lambda>p. fold (\<lambda>d. fold (\<lambda>q. f (p, d, q)) qs) ds) ps = fold f (candidates ps ds qs)"
  by (simp add: candidates_def fold_concat_map fold_map comp_def)

lemma wf_step_st_sim:
  assumes "X \<noteq> hist" "X \<noteq> preds" "hist \<noteq> preds" "tsize \<le> length (objs h X)"
  shows "wf_step_st A ord X tsize hist preds t h =
     (case wf_step A ord (drop tsize (objs h X)) t
             \<lparr>history = objs h hist, predictions = objs h preds\<rparr> of
        Inl e \<Rightarrow> (Inl e, h)
      | Inr s \<Rightarrow> (Inr (), h\<lparr>objs := (objs h)(preds := predictions s, hist := history s)\<rparr>))"
  using assms
  by (simp add: wf_step_st_def wf_step_def list_append_def Let_def split: sum.splits)

lemma wf_loop_st_sim:
  assumes "X \<noteq> hist" "X \<noteq> preds" "hist \<noteq> preds" "tsize \<le> length (objs h X)"
  shows "fresh (snd (wf_loop_st A ord X tsize hist preds ts h)) = fresh h
       \<and> (\<forall>r. r \<noteq> hist \<longrightarrow> r \<noteq> preds \<longrightarrow>
             objs (snd (wf_loop_st A ord X tsize hist preds ts h)) r = objs h r)
       \<and> (case wf_loop A ord (drop tsize (objs h X)) ts
                  \<lparr>history = objs h hist, predictions = objs h preds\<rparr> of
             Inl e \<Rightarrow> fst (wf_loop_st A ord X tsize hist preds ts h) = Inl e
           | Inr s \<Rightarrow> fst (wf_loop_st A ord X tsize hist preds ts h) = Inr ()
                \<and> objs (snd (wf_loop_st A ord X tsize hist preds ts h)) hist = history s
                \<and> objs (snd (wf_loop_st A ord X tsize hist preds ts h)) preds = predictions s)"
  using assms(4)
proof (induction ts arbitrary: h)
  case Nil
  then show ?case by simp
next
  case (Cons t ts)
  note step = wf_step_st_sim [OF assms(1-3) Cons.prems, of A ord t]
  show ?case
  proof (cases "wf_step A ord (drop tsize (objs h X)) t
      \<lparr>history = objs h hist, predictions = objs h preds\<rparr>")
    case (Inl e)
    with step show ?thesis
      by simp
  next
    case (Inr s)
    let ?h = "h\<lparr>objs := (objs h)(preds := predictions s, hist := history s)\<rparr>"
    from assms(1,2) have X: "objs ?h X = objs h X"
      by simp
    with Cons.prems have "tsize \<le> length (objs ?h X)"
      by simp
    note ih = Cons.IH [OF this]
    from assms(3) have s: "\<lparr>history = objs ?h hist, predictions = objs ?h preds\<rparr> = s"
      by simp
    from step Inr have st: "wf_loop_st A ord X tsize hist preds (t # ts) h
        = wf_loop_st A ord X tsize hist preds ts ?h"
      by simp
    show ?thesis
      using ih unfolding st X s by (simp add: Inr)
  qed
qed

lemma evaluate_arima_models_st_sim:
  assumes "X < fresh h"
  shows "fst (evaluate_arima_models_st A X ord h) = evaluate_arima_models A (objs h X) ord
       \<and> fresh (snd (evaluate_arima_models_st A X ord h)) = fresh h + 2
       \<and> (\<forall>r<fresh h. objs (snd (evaluate_arima_models_st A X ord h)) r = objs h r)"
proof -
  let ?tsize = "train_size (objs h X)"
  let ?hist = "fresh h"
  let ?preds = "Suc (fresh h)"
  let ?h2 = "h\<lparr>objs := (objs h)(?hist := take ?tsize (objs h X), ?preds := []),
               fresh := Suc (Suc (fresh h))\<rparr>"
  let ?n = "length (objs h X) - ?tsize"
  let ?loop = "wf_loop_st A ord X ?tsize ?hist ?preds [0..<?n] ?h2"
  from assms have X: "X \<noteq> ?hist" "X \<noteq> ?preds"
    by simp_all
  then have X2: "objs ?h2 X = objs h X"
    by simp
  have ev: "evaluate_arima_models_st A X ord h =
      (case fst ?loop of
         Inl e \<Rightarrow> (Inl e, snd ?loop)
       | Inr u \<Rightarrow> (Inr (rmse (drop ?tsize (objs (snd ?loop) X)) (objs (snd ?loop) ?preds)),
                    snd ?loop))"
    using X by (auto simp: evaluate_arima_models_st_def alloc_def Let_def
        split: prod.splits sum.splits)
  have "?tsize \<le> length (objs ?h2 X)"
    unfolding X2 by (rule train_size_le)
  from wf_loop_st_sim [OF X _ this, of A ord "[0..<?n]"]
  have fr: "fresh (snd ?loop) = Suc (Suc (fresh h))"
    and frame: "\<And>r. r \<noteq> ?hist \<Longrightarrow> r \<noteq> ?preds \<Longrightarrow> objs (snd ?loop) r = objs ?h2 r"
    and sim: "case walk_forward A (objs h X) ord ?n of
        Inl e \<Rightarrow> fst ?loop = Inl e
      | Inr s \<Rightarrow> fst ?loop = Inr () \<and> objs (snd ?loop) ?hist = history s
           \<and> objs (snd ?loop) ?preds = predictions s"
    unfolding X2 by (simp_all add: walk_forward_def)
  from frame [of X] X have X3: "objs (snd ?loop) X = objs h X"
    by simp
  have res: "fst (evaluate_arima_models_st A X ord h) = evaluate_arima_models A (objs h X) ord"
    using sim unfolding ev X3
    by (simp add: evaluate_arima_models_def split: sum.splits)
  have fresh: "fresh (snd (evaluate_arima_models_st A X ord h)) = fresh h + 2"
    unfolding ev using fr by (simp split: sum.splits)
  have "objs (snd (evaluate_arima_models_st A X ord h)) r = objs h r" if "r < fresh h" for r
  proof -
    from that have "r \<noteq> ?hist" "r \<noteq> ?preds"
      by simp_all
    from frame [OF this] this show ?thesis
      unfolding ev by (simp split: sum.splits)
  qed
  with res fresh show ?thesis
    by blast
qed

lemma try_order_st_sim:
  assumes "X < fresh h"
  shows "fst (try_order_st A X c (s, h)) = try_order A (objs h X) c s
       \<and> fresh (snd (try_order_st A X c (s, h))) = fresh h + 2
       \<and> (\<forall>r<fresh h. objs (snd (try_order_st A X c (s, h))) r = objs h r)"
proof (cases "evaluate_arima_models_st A X c h")
  case (Pair res h')
  with evaluate_arima_models_st_sim [OF assms, of A c]
  have "res = evaluate_arima_models A (objs h X) c" "fresh h' = fresh h + 2"
    "\<forall>r<fresh h. objs h' r = objs h r"
    by simp_all
  then show ?thesis
    by (simp add: try_order_st_def try_order_def Pair split: sum.splits)
qed

lemma fold_try_order_st_sim:
  assumes "X < fresh h"
  shows "fst (fold (try_order_st A X) cs (s, h)) = fold (try_order A (objs h X)) cs s
       \<and> fresh (snd (fold (try_order_st A X) cs (s, h))) = fresh h + 2 * length cs
       \<and> (\<forall>r<fresh h. objs (snd (fold (try_order_st A X) cs (s, h))) r = objs h r)"
  using assms
proof (induction cs arbitrary: s h)
  case Nil
  then show ?case by simp
next
  case (Cons c cs)
  obtain s' h' where step: "try_order_st A X c (s, h) = (s', h')"
    by (cases "try_order_st A X c (s, h)")
  with try_order_st_sim [OF Cons.prems, of A c s]
  have s': "s' = try_order A (objs h X) c s" and fr: "fresh h' = fresh h + 2"
    and frame: "\<forall>r<fresh h. objs h' r = objs h r"
    by simp_all
  from Cons.prems fr have X: "X < fresh h'"
    by simp
  from frame Cons.prems have same: "objs h' X = objs h X"
    by simp
  from Cons.IH [OF X, of s'] show ?case
    using frame by (simp add: step s' fr same)
qed

lemma evaluate_models_st_sim:
  "fst (evaluate_models_st A f D ps ds qs h) = evaluate_models A f (objs h D) ps ds qs
   \<and> fresh (snd (evaluate_models_st A f D ps ds qs h))
       = fresh h + 1 + 2 * length (candidates ps ds qs)
   \<and> (\<forall>r<fresh h. objs (snd (evaluate_models_st A f D ps ds qs h)) r = objs h r)"
proof -
  let ?h1 = "h\<lparr>objs := (objs h)(fresh h := map f (objs h D)), fresh := Suc (fresh h)\<rparr>"
  let ?run = "fold (try_order_st A (fresh h)) (candidates ps ds qs) (initial, ?h1)"
  have ev: "evaluate_models_st A f D ps ds qs h =
      (\<lparr>returned = None,
         printed = out (fst ?run) @ [Best (best_cfg (fst ?run)) (best_score (fst ?run))]\<rparr>,
       snd ?run)"
    by (simp add: evaluate_models_st_def alloc_def nested_fold_candidates Let_def
        split: prod.splits)
  have "fresh h < fresh ?h1"
    by simp
  from fold_try_order_st_sim [OF this, of A "candidates ps ds qs" initial]
  have run: "fst ?run = best_result A f (objs h D) ps ds qs"
    and fr: "fresh (snd ?run) = fresh h + 1 + 2 * length (candidates ps ds qs)"
    and frame: "\<forall>r<Suc (fresh h). objs (snd ?run) r = objs ?h1 r"
    by (simp_all add: best_result_fold)
  from frame have "\<forall>r<fresh h. objs (snd ?run) r = objs h r"
    by simp
  with run fr show ?thesis
    unfolding ev by (simp add: evaluate_models_def Let_def)
qed

text \<open>
  Claim C8. Neither function changes an object that exists when it is called, so the
  caller's series holds the same elements afterwards. \<^verbatim>\<open>evaluate_arima_models\<close> allocates two
  new lists (the copy of the training prefix and the predictions) and appends to these only;
  \<^verbatim>\<open>evaluate_models\<close> allocates the converted array and then two lists for each candidate.
\<close>

theorem series_is_never_mutated:
  assumes "X < fresh h"
  shows "objs (snd (evaluate_arima_models_st ARIMA X ord h)) X = objs h X
       \<and> (\<forall>r<fresh h. objs (snd (evaluate_arima_models_st ARIMA X ord h)) r = objs h r)
       \<and> fresh (snd (evaluate_arima_models_st ARIMA X ord h)) = fresh h + 2
       \<and> objs (snd (evaluate_models_st ARIMA as_float X p_values d_values q_values h)) X = objs h X
       \<and> (\<forall>r<fresh h.
            objs (snd (evaluate_models_st ARIMA as_float X p_values d_values q_values h)) r = objs h r)
       \<and> fresh (snd (evaluate_models_st ARIMA as_float X p_values d_values q_values h))
           = fresh h + 1 + 2 * length (candidates p_values d_values q_values)"
  using assms evaluate_arima_models_st_sim [OF assms, of ARIMA ord]
    evaluate_models_st_sim [of ARIMA as_float X p_values d_values q_values h]
  by simp

lemma store0_after:
  "objs (snd (evaluate_arima_models_st naive 0 (0, 0, 0) store0)) (Suc 0) = [1, 2, 3, 4]"
  "objs (snd (evaluate_arima_models_st naive 0 (0, 0, 0) store0)) 2 = [2, 3]"
  by (simp_all add: evaluate_arima_models_st_def store0_def alloc_def train_size_example upt_2
      wf_step_st_def list_append_def naive_def Let_def)

theorem series_is_never_mutated_witness:
  "(0::nat) < fresh store0
   \<and> objs store0 0 = [1, 2, 3, 4]
   \<and> objs (snd (evaluate_arima_models_st naive 0 (0, 0, 0) store0)) 0 = [1, 2, 3, 4]
   \<and> objs (snd (evaluate_arima_models_st naive 0 (0, 0, 0) store0)) 1 = [1, 2, 3, 4]
   \<and> objs (snd (evaluate_arima_models_st naive 0 (0, 0, 0) store0)) 2 = [2, 3]
   \<and> objs (snd (evaluate_models_st naive id 0 [0] [0] [0, 1] store0)) 0 = [1, 2, 3, 4]"
proof -
  have h: "0 < fresh store0"
    by (simp add: store0_def)
  have o: "objs store0 0 = [1, 2, 3, 4]"
    by (simp add: store0_def)
  from series_is_never_mutated [OF h, of naive "(0, 0, 0)" id "[0]" "[0]" "[0, 1]"] h o
  show ?thesis
    by (simp add: store0_after)
qed

text \<open>
  Claim C9. The result of \<^verbatim>\<open>evaluate_arima_models\<close> is a function of the model, the elements
  of the series and the order, and of nothing else in the store: it is the value of the
  function \<open>evaluate_arima_models\<close>. So a second call, made in the store the first call left
  behind, returns what the first returned, and so does a call in any other store on a series
  with the same elements.
\<close>

theorem evaluate_is_deterministic:
  assumes "X < fresh h" and "X' < fresh h'" and "objs h' X' = objs h X"
  shows "fst (evaluate_arima_models_st ARIMA X ord (snd (evaluate_arima_models_st ARIMA X ord h)))
           = fst (evaluate_arima_models_st ARIMA X ord h)
       \<and> fst (evaluate_arima_models_st ARIMA X' ord h') = fst (evaluate_arima_models_st ARIMA X ord h)
       \<and> fst (evaluate_arima_models_st ARIMA X ord h) = evaluate_arima_models ARIMA (objs h X) ord"
proof -
  let ?h1 = "snd (evaluate_arima_models_st ARIMA X ord h)"
  note first = evaluate_arima_models_st_sim [OF assms(1), of ARIMA ord]
  from first assms(1) have "X < fresh ?h1" and same: "objs ?h1 X = objs h X"
    by simp_all
  from evaluate_arima_models_st_sim [OF this(1), of ARIMA ord] same
  have "fst (evaluate_arima_models_st ARIMA X ord ?h1) = evaluate_arima_models ARIMA (objs h X) ord"
    by simp
  moreover from evaluate_arima_models_st_sim [OF assms(2), of ARIMA ord] assms(3)
  have "fst (evaluate_arima_models_st ARIMA X' ord h') = evaluate_arima_models ARIMA (objs h X) ord"
    by simp
  ultimately show ?thesis
    using first by simp
qed

theorem evaluate_is_deterministic_witness:
  "(0::nat) < fresh store0
   \<and> fst (evaluate_arima_models_st naive 0 (0, 0, 0) store0) = Inr (Num 1)
   \<and> fst (evaluate_arima_models_st naive 0 (0, 0, 0)
            (snd (evaluate_arima_models_st naive 0 (0, 0, 0) store0))) = Inr (Num 1)"
proof -
  have h: "0 < fresh store0"
    by (simp add: store0_def)
  have o: "objs store0 0 = [1, 2, 3, 4]"
    by (simp add: store0_def)
  from evaluate_is_deterministic [OF h h refl, of naive "(0, 0, 0)"] h
  show ?thesis
    by (simp add: o eval_naive)
qed

text \<open>
  Claim C10. When one of the three candidate lists is empty, the loops visit no triple:
  they leave the variables as they are, whatever the model, the store grows by the converted
  array and by no list of an evaluation, and the closing line carries the initial pair of
  positive infinity and no configuration.
\<close>

theorem empty_candidate_list:
  assumes "p_values = [] \<or> d_values = [] \<or> q_values = []"
  shows "candidates p_values d_values q_values = []
       \<and> grid_loops ARIMA X p_values d_values q_values s = s
       \<and> best_result ARIMA as_float dataset p_values d_values q_values
           = \<lparr>best_score = PosInf, best_cfg = None, out = []\<rparr>
       \<and> evaluate_models ARIMA as_float dataset p_values d_values q_values
           = \<lparr>returned = None, printed = [Best None PosInf]\<rparr>
       \<and> fresh (snd (evaluate_models_st ARIMA as_float D p_values d_values q_values h))
           = fresh h + 1"
proof -
  from assms have c: "candidates p_values d_values q_values = []"
    by (rule candidates_empty)
  then have loops: "grid_loops ARIMA X p_values d_values q_values s = s" for X s
    by (simp add: grid_loops_candidates)
  then have best: "best_result ARIMA as_float dataset p_values d_values q_values
      = \<lparr>best_score = PosInf, best_cfg = None, out = []\<rparr>"
    by (simp add: best_result_def initial_def)
  then have "evaluate_models ARIMA as_float dataset p_values d_values q_values
      = \<lparr>returned = None, printed = [Best None PosInf]\<rparr>"
    by (simp add: evaluate_models_def)
  moreover from evaluate_models_st_sim [of ARIMA as_float D p_values d_values q_values h]
  have "fresh (snd (evaluate_models_st ARIMA as_float D p_values d_values q_values h))
      = fresh h + 1"
    by (simp add: c)
  ultimately show ?thesis
    using c loops best by simp
qed

theorem empty_candidate_list_witness:
  "candidates [0, 1] [] [0, 1, 2] = []
   \<and> evaluate_models naive id [1, 2, 3, 4] [0, 1] [] [0, 1, 2]
       = \<lparr>returned = None, printed = [Best None PosInf]\<rparr>
   \<and> evaluate_models failing id [1, 2, 3, 4] [0, 1] [] [0, 1, 2]
       = \<lparr>returned = None, printed = [Best None PosInf]\<rparr>"
proof -
  have h: "[0, 1 :: int] = [] \<or> ([] :: int list) = [] \<or> [0, 1, 2 :: int] = []"
    by simp
  from empty_candidate_list [OF h] show ?thesis
    by blast
qed

end
